theory Spec2Isabelle
  imports Main "HOL-Library.Sublist"
begin

section \<open>Values of the decoded compose file\<close>

text \<open>
  \<open>validateDappnodeCompose\<close> works on an already decoded YAML/JSON document. The
  TypeScript interfaces are erased at run time and the validator itself walks over service
  properties generically (\<open>Object.values\<close>), so a property value is modelled as an untyped
  JavaScript value. An object is the list of its own enumerable properties in the order
  \<open>Object.keys\<close> enumerates them. Numbers are only tested for truthiness and identity by
  the validator; they are modelled as integers.
\<close>

datatype jsval =
    JUndefined
  | JNull
  | JBool bool
  | JNum int
  | JStr string
  | JArr "jsval list"
  | JObj "(string \<times> jsval) list"

text \<open>Run-time errors of the language and of the semver library, all of class TypeError.\<close>

datatype type_error =
    ReadOfNullish string        \<comment> \<open>property read on \<open>null\<close> or \<open>undefined\<close>\<close>
  | NotAFunction string         \<comment> \<open>call of a method the value does not have\<close>
  | NotIterable                 \<comment> \<open>\<open>for ... of\<close> over a value that is not iterable\<close>
  | KeysOfNullish               \<comment> \<open>\<open>Object.keys\<close>/\<open>Object.values\<close> of \<open>undefined\<close>\<close>
  | VersionTooLong              \<comment> \<open>semver: more than 256 characters\<close>
  | InvalidVersion string       \<comment> \<open>semver: \<open>Invalid Version: ...\<close>\<close>
  | InvalidComponent            \<comment> \<open>semver: major, minor or patch above 2^53 - 1\<close>

fun truthy :: "jsval \<Rightarrow> bool" where
  "truthy JUndefined = False"
| "truthy JNull = False"
| "truthy (JBool b) = b"
| "truthy (JNum n) = (n \<noteq> 0)"
| "truthy (JStr s) = (s \<noteq> [])"
| "truthy (JArr xs) = True"
| "truthy (JObj kvs) = True"

text \<open>
  The property read \<open>v.k\<close> for the names the validator reads (\<open>dns\<close>, \<open>pid\<close>,
  \<open>privileged\<close>, \<open>network_mode\<close>, \<open>external\<close>, \<open>aliases\<close>): none of them is a built-in
  property of a string, number, boolean or array, so on those the read gives \<open>undefined\<close>.
\<close>

fun get_prop :: "jsval \<Rightarrow> string \<Rightarrow> type_error + jsval" where
  "get_prop JUndefined k = Inl (ReadOfNullish k)"
| "get_prop JNull k = Inl (ReadOfNullish k)"
| "get_prop (JObj kvs) k = Inr (case map_of kvs k of None \<Rightarrow> JUndefined | Some v \<Rightarrow> v)"
| "get_prop v k = Inr JUndefined"

text \<open>The property read on a value known to be an object (a service).\<close>

definition obj_prop :: "(string \<times> jsval) list \<Rightarrow> string \<Rightarrow> jsval" where
  "obj_prop kvs k = (case map_of kvs k of None \<Rightarrow> JUndefined | Some v \<Rightarrow> v)"

text \<open>\<open>Array.prototype.some\<close> with a callback that may throw: stops at the first hit.\<close>

fun some_js :: "('a \<Rightarrow> type_error + bool) \<Rightarrow> 'a list \<Rightarrow> type_error + bool" where
  "some_js f [] = Inr False"
| "some_js f (x # xs) =
     (case f x of
        Inl e \<Rightarrow> Inl e
      | Inr b \<Rightarrow> if b then Inr True else some_js f xs)"

text \<open>\<open>for (const x of v)\<close>: arrays and strings are iterable, other values are not.\<close>

fun iterate :: "jsval \<Rightarrow> type_error + jsval list" where
  "iterate (JArr xs) = Inr xs"
| "iterate (JStr s) = Inr (map (\<lambda>c. JStr [c]) s)"
| "iterate v = Inl NotIterable"

section \<open>Policy parameters, compose, violations\<close>

text \<open>
  \<open>params\<close> is imported from \<open>./params\<close>; the constants are taken as a parameter of every
  rule.
\<close>

record params =
  MINIMUM_COMPOSE_FILE_VERSION :: string
  DOCKER_WHITELIST_NETWORKS :: "string list"
  DOCKER_CORE_ALIASES :: "string list"
  SAFE_KEYS :: "string list"
  DNS_SERVICE :: string

text \<open>
  The compose: \<open>networks\<close> and \<open>volumes\<close> are \<open>None\<close> when the top-level key is absent or
  null (both are falsy for the guards \<open>if (cpNetworks)\<close> and \<open>if (!cpVolumes)\<close>); every
  service is an object.
\<close>

record compose =
  version :: string
  networks :: "(string \<times> jsval) list option"
  volumes :: "(string \<times> jsval) list option"
  services :: "(string \<times> (string \<times> jsval) list) list"

text \<open>
  One constructor for each \<open>aggregatedError.errors.push(Error(...))\<close> of the source, named
  after the violation kinds of the specification, carrying what the message interpolates.
\<close>

datatype violation =
    VersionTooLow string
  | NetworkNotWhitelisted
  | NetworkNotExternal
  | ServiceKeyNotAllowed string
  | DnsMismatch string
  | PidUnsafe string
  | PrivilegedNotAllowed string
  | NetworkModeHostNotAllowed string
  | ServiceNetworkNotWhitelisted string
  | ReservedAliasUsed string
  | VolumeMissingTopLevelDefinition string
  | VolumeNameMissing string
  | BindMountNotAllowed string string

text \<open>
  A rule pushes violations onto the collector and either completes or is cut short by a
  thrown error: its effect is the list of violations pushed, in order, and the error if any.
\<close>

type_synonym run = "violation list \<times> type_error option"

definition then_run :: "run \<Rightarrow> run \<Rightarrow> run" where
  "then_run a b = (case snd a of Some e \<Rightarrow> a | None \<Rightarrow> (fst a @ fst b, snd b))"

text \<open>\<open>if (cond) aggregatedError.errors.push(v)\<close>, where evaluating the condition may throw.\<close>

definition push_if :: "type_error + bool \<Rightarrow> violation \<Rightarrow> run" where
  "push_if c v =
     (case c of Inl e \<Rightarrow> ([], Some e) | Inr b \<Rightarrow> (if b then [v] else [], None))"

section \<open>The per-service volume rule\<close>

text \<open>\<open>s.split(d)\<close> for a one-character separator.\<close>

fun split_on :: "char \<Rightarrow> string \<Rightarrow> string list" where
  "split_on d [] = [[]]"
| "split_on d (c # cs) =
     (if c = d then [] # split_on d cs
      else case split_on d cs of
        [] \<Rightarrow> [[c]]
      | w # ws \<Rightarrow> (c # w) # ws)"

text \<open>\<open>cpServiceVolume.split(":")[0]\<close>; the split of a string is never empty.\<close>

definition first_segment :: "string \<Rightarrow> string" where
  "first_segment s = (case split_on CHR '':'' s of [] \<Rightarrow> [] | w # ws \<Rightarrow> w)"

fun volumes_loop :: "compose \<Rightarrow> bool \<Rightarrow> string \<Rightarrow> jsval list \<Rightarrow> run" where
  "volumes_loop c isCore cpServiceName [] = ([], None)"
| "volumes_loop c isCore cpServiceName (cpServiceVolume # rest) =
     (if \<not> truthy cpServiceVolume then volumes_loop c isCore cpServiceName rest
      else case volumes c of
        None \<Rightarrow> ([VolumeMissingTopLevelDefinition cpServiceName], None)
      | Some cpVolumes \<Rightarrow>
          (case cpServiceVolume of
             JStr s \<Rightarrow>
               then_run
                 (then_run
                    (push_if (Inr (first_segment s = [])) (VolumeNameMissing cpServiceName))
                    (push_if (Inr (\<not> isCore \<and> first_segment s \<notin> set (map fst cpVolumes)))
                       (BindMountNotAllowed cpServiceName (first_segment s))))
                 (volumes_loop c isCore cpServiceName rest)
           | _ \<Rightarrow> ([], Some (NotAFunction ''split''))))"

definition validateComposeAndComposeServicesVolumes ::
  "compose \<Rightarrow> bool \<Rightarrow> string \<Rightarrow> run" where
  "validateComposeAndComposeServicesVolumes c isCore cpServiceName =
     (case map_of (services c) cpServiceName of
        None \<Rightarrow> ([], Some (ReadOfNullish ''volumes''))
      | Some cpService \<Rightarrow>
          (let cpServiceVolumes = obj_prop cpService ''volumes'' in
           if \<not> truthy cpServiceVolumes then ([], None)
           else case iterate cpServiceVolumes of
             Inl e \<Rightarrow> ([], Some e)
           | Inr vs \<Rightarrow> volumes_loop c isCore cpServiceName vs))"

section \<open>The semver library: \<open>semver.lt\<close>\<close>

text \<open>
  \<open>semver\<close> is a third-party package. \<open>semver.lt(a, b)\<close> builds \<open>new SemVer(a)\<close>, then
  \<open>new SemVer(b)\<close>, in strict mode, and tests \<open>compare < 0\<close>. The constructor rejects a
  string longer than 256 characters, trims it and matches it against the full grammar
  \<open>v?MAJOR.MINOR.PATCH(-PRERELEASE)?(+BUILD)?\<close>; anything else is a TypeError
  \<open>Invalid Version\<close>. A character of this model is a code unit below 256, so of the
  white space \<open>trim\<close> strips only the ASCII ones and U+00A0 can occur. Numeric prerelease
  identifiers of 2^53 - 1 and above stay strings in the library and are compared after
  conversion to doubles; the conversion is modelled as the correctly rounded one.
\<close>

definition is_digit :: "char \<Rightarrow> bool" where
  "is_digit c = (48 \<le> (of_char c :: nat) \<and> (of_char c :: nat) \<le> 57)"

definition is_letter :: "char \<Rightarrow> bool" where
  "is_letter c =
     ((65 \<le> (of_char c :: nat) \<and> (of_char c :: nat) \<le> 90) \<or>
      (97 \<le> (of_char c :: nat) \<and> (of_char c :: nat) \<le> 122))"

definition is_space :: "char \<Rightarrow> bool" where
  "is_space c =
     ((of_char c :: nat) = 32 \<or> (9 \<le> (of_char c :: nat) \<and> (of_char c :: nat) \<le> 13)
      \<or> (of_char c :: nat) = 160)"

definition digit_val :: "char \<Rightarrow> nat" where
  "digit_val c = of_char c - 48"

definition digit_char :: "nat \<Rightarrow> char" where
  "digit_char n = char_of (48 + n)"

text \<open>The unary plus on a string of digits.\<close>

definition num_val :: "string \<Rightarrow> nat" where
  "num_val s = foldl (\<lambda>a c. 10 * a + digit_val c) 0 s"

text \<open>The decimal rendering of a number, as in \<open>String(n)\<close> and in array index keys.\<close>

function dec :: "nat \<Rightarrow> string" where
  "dec n = (if n < 10 then [digit_char n] else dec (n div 10) @ [digit_char (n mod 10)])"
  by pat_completeness auto
termination
  by (relation "measure id") auto

declare dec.simps [simp del]

definition trim :: "string \<Rightarrow> string" where
  "trim s = rev (dropWhile is_space (rev (dropWhile is_space s)))"

text \<open>The part before the first occurrence of a character, and the part after it if any.\<close>

definition break_at :: "char \<Rightarrow> string \<Rightarrow> string \<times> string option" where
  "break_at d s =
     (takeWhile (\<lambda>c. c \<noteq> d) s,
      case dropWhile (\<lambda>c. c \<noteq> d) s of [] \<Rightarrow> None | _ # r \<Rightarrow> Some r)"

text \<open>\<open>0|[1-9]\\d*\<close>\<close>

definition numeric_identifier :: "string \<Rightarrow> bool" where
  "numeric_identifier s =
     (s \<noteq> [] \<and> list_all is_digit s \<and> (s = ''0'' \<or> hd s \<noteq> CHR ''0''))"

text \<open>\<open>[0-9A-Za-z-]+\<close>\<close>

definition build_identifier :: "string \<Rightarrow> bool" where
  "build_identifier s =
     (s \<noteq> [] \<and> list_all (\<lambda>c. is_digit c \<or> is_letter c \<or> c = CHR ''-'') s)"

text \<open>A numeric identifier, or \<open>\\d*[a-zA-Z-][a-zA-Z0-9-]*\<close>\<close>

definition prerelease_identifier :: "string \<Rightarrow> bool" where
  "prerelease_identifier s =
     (build_identifier s \<and> (numeric_identifier s \<or> \<not> list_all is_digit s))"

datatype pre_id = PNum nat | PStr string

record semver =
  major :: nat
  minor :: nat
  patch :: nat
  prerelease :: "pre_id list"

definition MAX_SAFE_INTEGER :: nat where
  "MAX_SAFE_INTEGER = 2 ^ 53 - 1"

definition to_pre_id :: "string \<Rightarrow> pre_id" where
  "to_pre_id s =
     (if list_all is_digit s \<and> num_val s < MAX_SAFE_INTEGER then PNum (num_val s)
      else PStr s)"

text \<open>The match of the trimmed string against the full grammar: the captured groups.\<close>

definition match_full :: "string \<Rightarrow> (string \<times> string \<times> string \<times> string list) option" where
  "match_full t =
     (let t1 = (case t of c # cs \<Rightarrow> if c = CHR ''v'' then cs else t | [] \<Rightarrow> t);
          (mp, build) = break_at CHR ''+'' t1;
          (main, pre) = break_at CHR ''-'' mp;
          build_ok = (case build of None \<Rightarrow> True
                      | Some b \<Rightarrow> list_all build_identifier (split_on CHR ''.'' b));
          pre_ok = (case pre of None \<Rightarrow> True
                    | Some q \<Rightarrow> list_all prerelease_identifier (split_on CHR ''.'' q))
      in case split_on CHR ''.'' main of
           [a, b, c] \<Rightarrow>
             if numeric_identifier a \<and> numeric_identifier b \<and> numeric_identifier c
                \<and> pre_ok \<and> build_ok
             then Some (a, b, c, case pre of None \<Rightarrow> [] | Some q \<Rightarrow> split_on CHR ''.'' q)
             else None
         | _ \<Rightarrow> None)"

definition parse_semver :: "string \<Rightarrow> type_error + semver" where
  "parse_semver v =
     (if length v > 256 then Inl VersionTooLong
      else case match_full (trim v) of
        None \<Rightarrow> Inl (InvalidVersion v)
      | Some (a, b, c, pre) \<Rightarrow>
          if num_val a > MAX_SAFE_INTEGER \<or> num_val b > MAX_SAFE_INTEGER
             \<or> num_val c > MAX_SAFE_INTEGER
          then Inl InvalidComponent
          else Inr \<lparr>major = num_val a, minor = num_val b, patch = num_val c,
                    prerelease = map to_pre_id pre\<rparr>)"

definition compare_nat :: "nat \<Rightarrow> nat \<Rightarrow> int" where
  "compare_nat a b = (if a = b then 0 else if a < b then - 1 else 1)"

text \<open>The order of two strings by code unit, JavaScript's \<open><\<close> on strings.\<close>

fun str_lt :: "string \<Rightarrow> string \<Rightarrow> bool" where
  "str_lt [] [] = False"
| "str_lt [] (y # ys) = True"
| "str_lt (x # xs) [] = False"
| "str_lt (x # xs) (y # ys) =
     (if x = y then str_lt xs ys else (of_char x :: nat) < of_char y)"

fun id_numeric :: "pre_id \<Rightarrow> bool" where
  "id_numeric (PNum n) = True"
| "id_numeric (PStr s) = (s \<noteq> [] \<and> list_all is_digit s)"

text \<open>The number of binary digits of a number.\<close>

fun bit_length :: "nat \<Rightarrow> nat" where
  "bit_length n = (if n = 0 then 0 else Suc (bit_length (n div 2)))"

declare bit_length.simps [simp del]

text \<open>
  The double nearest to a natural number (ties to the even significand), as a natural
  number again: exact below 2^53, 53 significant bits above. A version string has at most
  256 characters, so the number is far below the largest double.
\<close>

definition to_double :: "nat \<Rightarrow> nat" where
  "to_double n =
     (if n < 2 ^ 53 then n
      else let e = bit_length n - 53; q = n div 2 ^ e; r = n mod 2 ^ e
           in (if 2 ^ e < 2 * r \<or> (2 * r = 2 ^ e \<and> odd q) then q + 1 else q) * 2 ^ e)"

text \<open>\<open>+a\<close> for an identifier that passes the test \<open>/^[0-9]+$/\<close>.\<close>

fun id_value :: "pre_id \<Rightarrow> nat" where
  "id_value (PNum n) = n"
| "id_value (PStr s) = to_double (num_val s)"

fun id_text :: "pre_id \<Rightarrow> string" where
  "id_text (PNum n) = dec n"
| "id_text (PStr s) = s"

definition compareIdentifiers :: "pre_id \<Rightarrow> pre_id \<Rightarrow> int" where
  "compareIdentifiers a b =
     (if id_numeric a \<and> id_numeric b then compare_nat (id_value a) (id_value b)
      else if a = b then 0
      else if id_numeric a \<and> \<not> id_numeric b then - 1
      else if id_numeric b \<and> \<not> id_numeric a then 1
      else if str_lt (id_text a) (id_text b) then - 1 else 1)"

fun comparePre_loop :: "pre_id list \<Rightarrow> pre_id list \<Rightarrow> int" where
  "comparePre_loop [] [] = 0"
| "comparePre_loop (a # as) [] = 1"
| "comparePre_loop [] (b # bs) = - 1"
| "comparePre_loop (a # as) (b # bs) =
     (if a = b then comparePre_loop as bs else compareIdentifiers a b)"

definition comparePre :: "semver \<Rightarrow> semver \<Rightarrow> int" where
  "comparePre x y =
     (if prerelease x \<noteq> [] \<and> prerelease y = [] then - 1
      else if prerelease x = [] \<and> prerelease y \<noteq> [] then 1
      else if prerelease x = [] \<and> prerelease y = [] then 0
      else comparePre_loop (prerelease x) (prerelease y))"

definition compareMain :: "semver \<Rightarrow> semver \<Rightarrow> int" where
  "compareMain x y =
     (if compare_nat (major x) (major y) \<noteq> 0 then compare_nat (major x) (major y)
      else if compare_nat (minor x) (minor y) \<noteq> 0 then compare_nat (minor x) (minor y)
      else compare_nat (patch x) (patch y))"

definition compare_semver :: "semver \<Rightarrow> semver \<Rightarrow> int" where
  "compare_semver x y = (if compareMain x y \<noteq> 0 then compareMain x y else comparePre x y)"

definition semver_lt :: "string \<Rightarrow> string \<Rightarrow> type_error + bool" where
  "semver_lt a b =
     (case parse_semver a of
        Inl e \<Rightarrow> Inl e
      | Inr x \<Rightarrow>
          (case parse_semver b of
             Inl e \<Rightarrow> Inl e
           | Inr y \<Rightarrow> Inr (compare_semver x y < 0)))"

section \<open>The top-level rules\<close>

definition validateComposeVersion :: "params \<Rightarrow> compose \<Rightarrow> run" where
  "validateComposeVersion p c =
     push_if (semver_lt (version c @ ''.0'') (MINIMUM_COMPOSE_FILE_VERSION p @ ''.0''))
       (VersionTooLow (version c))"

definition validateComposeNetworks :: "params \<Rightarrow> compose \<Rightarrow> run" where
  "validateComposeNetworks p c =
     (case networks c of
        None \<Rightarrow> ([], None)
      | Some cpNetworks \<Rightarrow>
          then_run
            (push_if
               (some_js (\<lambda>networkName. Inr (networkName \<notin> set (DOCKER_WHITELIST_NETWORKS p)))
                  (map fst cpNetworks))
               NetworkNotWhitelisted)
            (push_if
               (some_js
                  (\<lambda>network. case get_prop network ''external'' of
                       Inl e \<Rightarrow> Inl e
                     | Inr x \<Rightarrow> Inr (x = JBool False))
                  (map snd cpNetworks))
               NetworkNotExternal))"

section \<open>The per-service rules for keys, values and networks\<close>

definition validateComposeServicesKeys :: "params \<Rightarrow> compose \<Rightarrow> string \<Rightarrow> run" where
  "validateComposeServicesKeys p c cpServiceName =
     (case map_of (services c) cpServiceName of
        None \<Rightarrow> ([], Some KeysOfNullish)
      | Some cpService \<Rightarrow>
          push_if
            (some_js (\<lambda>composeServiceKey. Inr (composeServiceKey \<notin> set (SAFE_KEYS p)))
               (map fst cpService))
            (ServiceKeyNotAllowed cpServiceName))"

text \<open>
  The four callbacks of \<open>validateComposeServicesValues\<close>. The source applies them to the
  elements of \<open>Object.values(compose.services[cpServiceName])\<close>, that is, to the values of
  the service's properties, and the model does the same.
\<close>

definition dns_differs :: "params \<Rightarrow> jsval \<Rightarrow> type_error + bool" where
  "dns_differs p service =
     (case get_prop service ''dns'' of
        Inl e \<Rightarrow> Inl e
      | Inr d \<Rightarrow> Inr (truthy d \<and> d \<noteq> JStr (DNS_SERVICE p)))"

definition pid_unsafe :: "jsval \<Rightarrow> type_error + bool" where
  "pid_unsafe service =
     (case get_prop service ''pid'' of
        Inl e \<Rightarrow> Inl e
      | Inr pd \<Rightarrow>
          if \<not> truthy pd then Inr False
          else (case pd of
                  JStr s \<Rightarrow> Inr (\<not> prefix ''service:'' s)
                | _ \<Rightarrow> Inl (NotAFunction ''startsWith'')))"

definition is_privileged :: "jsval \<Rightarrow> type_error + bool" where
  "is_privileged service =
     (case get_prop service ''privileged'' of
        Inl e \<Rightarrow> Inl e
      | Inr x \<Rightarrow> Inr (x = JBool True))"

definition is_network_mode_host :: "jsval \<Rightarrow> type_error + bool" where
  "is_network_mode_host service =
     (case get_prop service ''network_mode'' of
        Inl e \<Rightarrow> Inl e
      | Inr x \<Rightarrow> Inr (x = JStr ''host''))"

definition validateComposeServicesValues :: "params \<Rightarrow> compose \<Rightarrow> bool \<Rightarrow> string \<Rightarrow> run" where
  "validateComposeServicesValues p c isCore cpServiceName =
     (case map_of (services c) cpServiceName of
        None \<Rightarrow> ([], Some KeysOfNullish)
      | Some cpService \<Rightarrow>
          (let cpServiceValues = map snd cpService in
           then_run
             (push_if (some_js (dns_differs p) cpServiceValues) (DnsMismatch cpServiceName))
             (then_run
                (push_if (some_js pid_unsafe cpServiceValues) (PidUnsafe cpServiceName))
                (then_run
                   (push_if
                      (if isCore then Inr False else some_js is_privileged cpServiceValues)
                      (PrivilegedNotAllowed cpServiceName))
                   (push_if
                      (if isCore then Inr False
                       else some_js is_network_mode_host cpServiceValues)
                      (NetworkModeHostNotAllowed cpServiceName))))))"

text \<open>
  \<open>Object.keys\<close> and \<open>Object.values\<close> of a value: the index keys and the elements of an
  array, the index keys and the characters of a string, nothing for a number or a boolean.
\<close>

fun object_keys :: "jsval \<Rightarrow> type_error + string list" where
  "object_keys JUndefined = Inl KeysOfNullish"
| "object_keys JNull = Inl KeysOfNullish"
| "object_keys (JObj kvs) = Inr (map fst kvs)"
| "object_keys (JArr xs) = Inr (map dec [0..<length xs])"
| "object_keys (JStr s) = Inr (map dec [0..<length s])"
| "object_keys v = Inr []"

fun object_values :: "jsval \<Rightarrow> type_error + jsval list" where
  "object_values JUndefined = Inl KeysOfNullish"
| "object_values JNull = Inl KeysOfNullish"
| "object_values (JObj kvs) = Inr (map snd kvs)"
| "object_values (JArr xs) = Inr xs"
| "object_values (JStr s) = Inr (map (\<lambda>c. JStr [c]) s)"
| "object_values v = Inr []"

text \<open>\<open>Array.prototype.map\<close> with a callback that may throw.\<close>

fun map_js :: "('a \<Rightarrow> type_error + 'b) \<Rightarrow> 'a list \<Rightarrow> type_error + 'b list" where
  "map_js f [] = Inr []"
| "map_js f (x # xs) =
     (case f x of
        Inl e \<Rightarrow> Inl e
      | Inr y \<Rightarrow> (case map_js f xs of Inl e \<Rightarrow> Inl e | Inr ys \<Rightarrow> Inr (y # ys)))"

text \<open>\<open>Array.prototype.flat()\<close>, one level deep.\<close>

definition flat :: "jsval list \<Rightarrow> jsval list" where
  "flat xs = concat (map (\<lambda>v. case v of JArr ys \<Rightarrow> ys | _ \<Rightarrow> [v]) xs)"

text \<open>\<open>list.includes(v)\<close> for a list of strings.\<close>

fun includes_js :: "string list \<Rightarrow> jsval \<Rightarrow> bool" where
  "includes_js l (JStr s) = (s \<in> set l)"
| "includes_js l v = False"

definition reserved_alias_used :: "params \<Rightarrow> jsval \<Rightarrow> type_error + bool" where
  "reserved_alias_used p cpServiceNetwork =
     (case object_values cpServiceNetwork of
        Inl e \<Rightarrow> Inl e
      | Inr vs \<Rightarrow>
          (case map_js (\<lambda>networks. get_prop networks ''aliases'') vs of
             Inl e \<Rightarrow> Inl e
           | Inr as \<Rightarrow>
               some_js (\<lambda>alias. Inr (truthy alias \<and> includes_js (DOCKER_CORE_ALIASES p) alias))
                 (flat as)))"

definition network_keys_not_whitelisted :: "params \<Rightarrow> jsval \<Rightarrow> type_error + bool" where
  "network_keys_not_whitelisted p cpServiceNetwork =
     (case object_keys cpServiceNetwork of
        Inl e \<Rightarrow> Inl e
      | Inr ks \<Rightarrow>
          some_js (\<lambda>network. Inr (\<not> includes_js (DOCKER_WHITELIST_NETWORKS p) (JStr network))) ks)"

text \<open>\<open>typeof cpServiceNetwork === "string" && !whitelist.includes(cpServiceNetwork)\<close>\<close>

fun bare_name_not_whitelisted :: "params \<Rightarrow> jsval \<Rightarrow> bool" where
  "bare_name_not_whitelisted p (JStr s) = (\<not> includes_js (DOCKER_WHITELIST_NETWORKS p) (JStr s))"
| "bare_name_not_whitelisted p v = False"

fun networks_loop :: "params \<Rightarrow> bool \<Rightarrow> string \<Rightarrow> jsval list \<Rightarrow> run" where
  "networks_loop p isCore cpServiceName [] = ([], None)"
| "networks_loop p isCore cpServiceName (cpServiceNetwork # rest) =
     (if \<not> truthy cpServiceNetwork then networks_loop p isCore cpServiceName rest
      else
        then_run
          (if bare_name_not_whitelisted p cpServiceNetwork
           then ([ServiceNetworkNotWhitelisted cpServiceName], None)
           else
             then_run
               (push_if (network_keys_not_whitelisted p cpServiceNetwork)
                  (ServiceNetworkNotWhitelisted cpServiceName))
               (push_if
                  (if isCore then Inr False else reserved_alias_used p cpServiceNetwork)
                  (ReservedAliasUsed cpServiceName)))
          (networks_loop p isCore cpServiceName rest))"

definition validateComposeServicesNetworks :: "params \<Rightarrow> compose \<Rightarrow> bool \<Rightarrow> string \<Rightarrow> run" where
  "validateComposeServicesNetworks p c isCore cpServiceName =
     (case map_of (services c) cpServiceName of
        None \<Rightarrow> ([], Some (ReadOfNullish ''networks''))
      | Some cpService \<Rightarrow>
          (let cpServiceNetworks = obj_prop cpService ''networks'' in
           if \<not> truthy cpServiceNetworks then ([], None)
           else case iterate cpServiceNetworks of
             Inl e \<Rightarrow> ([], Some e)
           | Inr ns \<Rightarrow> networks_loop p isCore cpServiceName ns))"

section \<open>The orchestrator\<close>

text \<open>\<open>list.join(sep)\<close>\<close>

fun join :: "string \<Rightarrow> string list \<Rightarrow> string" where
  "join sep [] = []"
| "join sep [x] = x"
| "join sep (x # y # ys) = x @ sep @ join sep (y # ys)"

text \<open>The message given to \<open>Error(...)\<close> at each push.\<close>

fun violation_message :: "params \<Rightarrow> violation \<Rightarrow> string" where
  "violation_message p (VersionTooLow v) =
     ''Compose version '' @ v @ '' is not supported. Minimum version is ''
       @ MINIMUM_COMPOSE_FILE_VERSION p"
| "violation_message p NetworkNotWhitelisted =
     ''Only docker networks '' @ join '','' (DOCKER_WHITELIST_NETWORKS p) @ '' are allowed''"
| "violation_message p NetworkNotExternal = ''Docker internal networks are not allowed''"
| "violation_message p (ServiceKeyNotAllowed n) =
     ''Compose service '' @ n @ '' has keys that are not allowed. Allowed keys are: ''
       @ join '','' (SAFE_KEYS p)"
| "violation_message p (DnsMismatch n) =
     ''Compose service '' @ n @ '' has DNS different than '' @ DNS_SERVICE p"
| "violation_message p (PidUnsafe n) =
     ''Compose service '' @ n @ '' hasPID feature differnet than service:*''"
| "violation_message p (PrivilegedNotAllowed n) =
     ''Compose service '' @ n @ '' has privileged as true but is not a core package''"
| "violation_message p (NetworkModeHostNotAllowed n) =
     ''Compose service '' @ n @ '' has network_mode: host but is not a core package''"
| "violation_message p (ServiceNetworkNotWhitelisted n) =
     ''Compose service '' @ n
       @ '' has a non-whitelisted docker network. Only docker networks ''
       @ join '','' (DOCKER_WHITELIST_NETWORKS p) @ '' are allowed''"
| "violation_message p (ReservedAliasUsed n) =
     ''Compose service '' @ n @ '' has a reserved docker alias. Aliases ''
       @ join '','' (DOCKER_CORE_ALIASES p) @ '' are reserved to core packages''"
| "violation_message p (VolumeMissingTopLevelDefinition n) =
     ''Compose service '' @ n
       @ '' has a volume not allowed. All docker volumes defined at the service level must be defined also at the top level volumes''"
| "violation_message p (VolumeNameMissing n) =
     ''Compose service '' @ n @ '' has a volume without name''"
| "violation_message p (BindMountNotAllowed n v) =
     ''Compose service '' @ n
       @ '' has a bind-mounted volume, Bind.mounted volumes are not allowed. Make sure the compose service volume ''
       @ v @ '' is defined in the top level volumes''"

text \<open>How \<open>join\<close> renders an \<open>Error\<close> object: \<open>Error.prototype.toString\<close>.\<close>

definition error_toString :: "params \<Rightarrow> violation \<Rightarrow> string" where
  "error_toString p v = ''Error: '' @ violation_message p v"

text \<open>
  The module-level \<open>aggregatedError\<close>, created once with an empty error list and an empty
  message, and shared by every call.
\<close>

record aggregate =
  errors :: "violation list"
  message :: string

definition fresh_aggregate :: aggregate where
  "fresh_aggregate = \<lparr>errors = [], message = []\<rparr>"

text \<open>The body of the loop over \<open>Object.keys(composeUnsafe.services)\<close>.\<close>

definition service_rules :: "params \<Rightarrow> compose \<Rightarrow> bool \<Rightarrow> string \<Rightarrow> run" where
  "service_rules p c isCore cpServiceName =
     then_run (validateComposeServicesKeys p c cpServiceName)
       (then_run (validateComposeServicesValues p c isCore cpServiceName)
          (then_run (validateComposeServicesNetworks p c isCore cpServiceName)
             (validateComposeAndComposeServicesVolumes c isCore cpServiceName)))"

fun services_loop :: "params \<Rightarrow> compose \<Rightarrow> bool \<Rightarrow> string list \<Rightarrow> run" where
  "services_loop p c isCore [] = ([], None)"
| "services_loop p c isCore (cpServiceName # rest) =
     then_run (service_rules p c isCore cpServiceName) (services_loop p c isCore rest)"

text \<open>Everything between \<open>try {\<close> and the test of \<open>aggregatedError.errors.length\<close>.\<close>

definition all_rules :: "params \<Rightarrow> compose \<Rightarrow> bool \<Rightarrow> run" where
  "all_rules p c isCore =
     then_run (validateComposeVersion p c)
       (then_run (validateComposeNetworks p c)
          (services_loop p c isCore (map fst (services c))))"


text \<open>
  How a call ends. \<open>ThrewAggregate\<close>: the shared \<open>aggregatedError\<close> was thrown; its errors
  and message are those of the aggregate after the call. \<open>ThrewTypeError e x\<close>: the run-time
  error \<open>e\<close> of a rule was rethrown; the text \<open>m\<close> the engine gave it is not modelled, and
  \<open>x\<close> records what the catch block did to it: nothing (\<open>None\<close>), or \<open>Some s\<close> when it
  was rewritten to \<open>m + m + s\<close>.
\<close>

datatype outcome = Returned | ThrewAggregate | ThrewTypeError type_error "string option"

text \<open>
  \<open>e.message += e.message + "\\n" + aggregatedError.errors.join("\\n")\<close>: the text
  appended to \<open>e.message + e.message\<close>.
\<close>

definition appended :: "params \<Rightarrow> violation list \<Rightarrow> string" where
  "appended p errs = [CHR 0x0A] @ join [CHR 0x0A] (map (error_toString p) errs)"

text \<open>
  \<open>getIsCore\<close> is imported from \<open>../../utils/getIsCore\<close> and is a parameter here, as the
  manifest's type is.
\<close>

definition validateDappnodeCompose ::
  "params \<Rightarrow> ('manifest \<Rightarrow> bool) \<Rightarrow> compose \<Rightarrow> 'manifest \<Rightarrow> aggregate
     \<Rightarrow> outcome \<times> aggregate" where
  "validateDappnodeCompose p getIsCore composeUnsafe manifest aggregatedError =
     (let isCore = getIsCore manifest;
          (errs, thrown) = all_rules p composeUnsafe isCore
      in case thrown of
           None \<Rightarrow>
             if length errs > 0
             then (ThrewAggregate,
                   \<lparr>errors = errs,
                    message = message aggregatedError @ message aggregatedError
                              @ appended p errs\<rparr>)
             else (Returned, \<lparr>errors = errs, message = message aggregatedError\<rparr>)
         | Some e \<Rightarrow>
             (ThrewTypeError e (if length errs > 0 then Some (appended p errs) else None),
              \<lparr>errors = errs, message = message aggregatedError\<rparr>))"



text \<open>
  Policy parameters for concrete evaluations: the minimum version \<open>3.4\<close> is the one the
  specification names; the other entries are sample values.
\<close>

definition sample_params :: params where
  "sample_params =
     \<lparr>MINIMUM_COMPOSE_FILE_VERSION = ''3.4'',
      DOCKER_WHITELIST_NETWORKS = [''dncore_network'', ''dnpublic_network''],
      DOCKER_CORE_ALIASES = [''dappmanager.dappnode'', ''ipfs.dappnode''],
      SAFE_KEYS = [''image'', ''dns'', ''pid'', ''privileged'', ''network_mode'',
                   ''networks'', ''volumes'', ''environment'', ''restart''],
      DNS_SERVICE = ''172.33.1.2''\<rparr>"

section \<open>Basic facts about the collector and the string helpers\<close>

lemma then_run_None [simp]: "then_run (xs, None) b = (xs @ fst b, snd b)"
  by (simp add: then_run_def)

lemma then_run_Some [simp]: "then_run (xs, Some e) b = (xs, Some e)"
  by (simp add: then_run_def)

lemma push_if_Inr [simp]: "push_if (Inr b) v = (if b then [v] else [], None)"
  by (simp add: push_if_def)

lemma push_if_Inl [simp]: "push_if (Inl e) v = ([], Some e)"
  by (simp add: push_if_def)

lemma split_on_takeWhile:
  "split_on d s = takeWhile (\<lambda>c. c \<noteq> d) s # tl (split_on d s)"
  by (induction s) (auto split: list.splits)

lemma first_segment_takeWhile: "first_segment s = takeWhile (\<lambda>c. c \<noteq> CHR '':'') s"
  unfolding first_segment_def by (subst split_on_takeWhile) simp

section \<open>The volume rule\<close>

lemma volumes_loop_skip:
  "\<not> truthy v \<Longrightarrow>
   volumes_loop c isCore n (pre @ v # post) = volumes_loop c isCore n (pre @ post)"
  by (induction pre) (auto split: option.splits jsval.splits)

lemma volumes_loop_no_top_level:
  "volumes c = None \<Longrightarrow>
   volumes_loop c isCore n vs =
     (if list_ex truthy vs then [VolumeMissingTopLevelDefinition n] else [], None)"
  by (induction vs) auto

text \<open>
  C10. An entry of a service's volumes sequence that is \<open>null\<close> or the empty string is
  skipped: alone it yields no violation of any kind and no error, and wherever it stands in
  the sequence the rule does exactly what it does on the sequence without it, whether the
  top-level volume mapping exists or not and whether the package is core or not.
\<close>

theorem volumes_null_or_empty_entry_skipped:
  assumes "v = JNull \<or> v = JStr []"
  shows "volumes_loop c isCore n [v] = ([], None)
         \<and> volumes_loop c isCore n (pre @ v # post) = volumes_loop c isCore n (pre @ post)"
proof -
  from assms have nt: "\<not> truthy v" by auto
  have "volumes_loop c isCore n ([] @ v # []) = volumes_loop c isCore n ([] @ [])"
    using nt by (rule volumes_loop_skip)
  then have "volumes_loop c isCore n [v] = ([], None)" by simp
  with volumes_loop_skip [OF nt] show ?thesis by simp
qed

theorem volumes_null_or_empty_entry_skipped_witness:
  "(JStr [] = JNull \<or> JStr [] = JStr [])
   \<and> volumes_loop \<lparr>version = ''3.8'', networks = None, volumes = None, services = []\<rparr>
        False ''web'' [JStr []] = ([], None)
   \<and> volumes_loop \<lparr>version = ''3.8'', networks = None, volumes = None, services = []\<rparr>
        False ''web'' [JNull, JStr [], JStr ''data:/data'']
      = volumes_loop \<lparr>version = ''3.8'', networks = None, volumes = None, services = []\<rparr>
        False ''web'' [JNull, JStr ''data:/data'']"
  using volumes_null_or_empty_entry_skipped [of "JStr []"
      "\<lparr>version = ''3.8'', networks = None, volumes = None, services = []\<rparr>"
      False "''web''" "[JNull]" "[JStr ''data:/data'']"]
  by simp

text \<open>
  C4, as stated, fails: a service whose volumes sequence is non-empty but holds only an
  empty string gets no violation although the compose has no top-level volume mapping; and
  of two mounts only the first is reported.
\<close>

theorem volume_rule_nonempty_sequence_counterexample:
  "validateComposeAndComposeServicesVolumes
     \<lparr>version = ''3.8'', networks = None, volumes = None,
      services = [(''web'', [(''volumes'', JArr [JStr []])])]\<rparr> False ''web''
   = ([], None)
   \<and> validateComposeAndComposeServicesVolumes
     \<lparr>version = ''3.8'', networks = None, volumes = None,
      services = [(''web'', [(''volumes'', JArr [JStr ''a:/a'', JStr ''b:/b''])])]\<rparr>
      False ''web''
   = ([VolumeMissingTopLevelDefinition ''web''], None)"
  by (simp add: validateComposeAndComposeServicesVolumes_def obj_prop_def)

text \<open>
  C4, amended. For a service whose volumes sequence holds at least one entry that is not
  skipped (not null, not empty) while the compose has no top-level volume mapping, the rule
  emits exactly one \<open>VolumeMissingTopLevelDefinition\<close> naming the service and stops, for
  core packages as for the others.
\<close>

theorem volume_rule_without_top_level_mapping:
  assumes "map_of (services c) n = Some cpService"
    and "obj_prop cpService ''volumes'' = JArr vs"
    and "volumes c = None"
    and "list_ex truthy vs"
  shows "validateComposeAndComposeServicesVolumes c isCore n
         = ([VolumeMissingTopLevelDefinition n], None)"
  using assms
  by (simp add: validateComposeAndComposeServicesVolumes_def volumes_loop_no_top_level)

theorem volume_rule_without_top_level_mapping_witness:
  "map_of (services \<lparr>version = ''3.8'', networks = None, volumes = None,
      services = [(''web'', [(''volumes'', JArr [JNull, JStr ''data:/data'', JNum 7])])]\<rparr>)
     ''web'' = Some [(''volumes'', JArr [JNull, JStr ''data:/data'', JNum 7])]
   \<and> obj_prop [(''volumes'', JArr [JNull, JStr ''data:/data'', JNum 7])] ''volumes''
      = JArr [JNull, JStr ''data:/data'', JNum 7]
   \<and> list_ex truthy [JNull, JStr ''data:/data'', JNum 7]
   \<and> validateComposeAndComposeServicesVolumes
        \<lparr>version = ''3.8'', networks = None, volumes = None,
         services = [(''web'', [(''volumes'', JArr [JNull, JStr ''data:/data'', JNum 7])])]\<rparr>
        True ''web''
      = ([VolumeMissingTopLevelDefinition ''web''], None)"
  using volume_rule_without_top_level_mapping [of
      "\<lparr>version = ''3.8'', networks = None, volumes = None,
        services = [(''web'', [(''volumes'', JArr [JNull, JStr ''data:/data'', JNum 7])])]\<rparr>"
      "''web''" "[(''volumes'', JArr [JNull, JStr ''data:/data'', JNum 7])]"
      "[JNull, JStr ''data:/data'', JNum 7]" True]
  by (simp add: obj_prop_def)

text \<open>
  C8, as stated, fails: the two checks on the volume name are not mutually exclusive. The
  mount \<open>:/data\<close> of a non-core service, with the top-level mapping \<open>{data: {}}\<close>, yields
  \<open>VolumeNameMissing\<close> and \<open>BindMountNotAllowed\<close> both.
\<close>

theorem volume_name_checks_exclusive_counterexample:
  "validateComposeAndComposeServicesVolumes
     \<lparr>version = ''3.8'', networks = None, volumes = Some [(''data'', JObj [])],
      services = [(''web'', [(''volumes'', JArr [JStr '':/data''])])]\<rparr> False ''web''
   = ([VolumeNameMissing ''web'', BindMountNotAllowed ''web'' []], None)"
  by (simp add: validateComposeAndComposeServicesVolumes_def obj_prop_def first_segment_takeWhile)

text \<open>
  For a volumes sequence whose entries are strings or skipped values, with a top-level
  volume mapping present, the loop adds for each non-empty mount string, in order, the
  result of the two checks on its name.
\<close>

lemma volumes_loop_strings:
  assumes "volumes c = Some cpVolumes"
    and "\<forall>v \<in> set vs. truthy v \<longrightarrow> (\<exists>s. v = JStr s)"
  shows "volumes_loop c isCore n vs =
     (concat (map (\<lambda>v. case v of
                     JStr s \<Rightarrow>
                       if s = [] then []
                       else (if first_segment s = [] then [VolumeNameMissing n] else [])
                            @ (if \<not> isCore \<and> first_segment s \<notin> set (map fst cpVolumes)
                               then [BindMountNotAllowed n (first_segment s)] else [])
                   | _ \<Rightarrow> []) vs), None)"
  using assms(2)
proof (induction vs)
  case Nil
  then show ?case by simp
next
  case (Cons v vs)
  then have ih: "volumes_loop c isCore n vs =
     (concat (map (\<lambda>v. case v of
                     JStr s \<Rightarrow>
                       if s = [] then []
                       else (if first_segment s = [] then [VolumeNameMissing n] else [])
                            @ (if \<not> isCore \<and> first_segment s \<notin> set (map fst cpVolumes)
                               then [BindMountNotAllowed n (first_segment s)] else [])
                   | _ \<Rightarrow> []) vs), None)"
    by simp
  show ?case
  proof (cases "truthy v")
    case False
    then show ?thesis using ih by (cases v) auto
  next
    case True
    with Cons.prems obtain s where "v = JStr s" by auto
    with True ih assms(1) show ?thesis by simp
  qed
qed

text \<open>
  C8, amended. For a non-core service whose volumes sequence holds mount strings (and
  entries that are skipped), with a top-level volume mapping present, the two checks on the
  volume name are independent and every non-empty mount string of the sequence gets both,
  in order: it yields \<open>VolumeNameMissing\<close> exactly when its first \<open>:\<close>-separated segment is
  empty, and, whether or not the segment is empty, \<open>BindMountNotAllowed\<close> exactly when that
  segment is not a key of the top-level mapping. So a named mount yields
  \<open>BindMountNotAllowed\<close> when its name is absent and no violation when it is present, and
  the rule completes without a run-time error.
\<close>

theorem volume_name_checks_independent:
  assumes "map_of (services c) n = Some cpService"
    and "obj_prop cpService ''volumes'' = JArr vs"
    and "volumes c = Some cpVolumes"
    and "\<forall>v \<in> set vs. truthy v \<longrightarrow> (\<exists>s. v = JStr s)"
  shows "validateComposeAndComposeServicesVolumes c False n =
     (concat (map (\<lambda>v. case v of
                     JStr s \<Rightarrow>
                       if s = [] then []
                       else (if first_segment s = [] then [VolumeNameMissing n] else [])
                            @ (if first_segment s \<notin> set (map fst cpVolumes)
                               then [BindMountNotAllowed n (first_segment s)] else [])
                   | _ \<Rightarrow> []) vs), None)"
proof -
  have "validateComposeAndComposeServicesVolumes c False n = volumes_loop c False n vs"
    using assms(1,2) by (simp add: validateComposeAndComposeServicesVolumes_def)
  also have "\<dots> = (concat (map (\<lambda>v. case v of
                     JStr s \<Rightarrow>
                       if s = [] then []
                       else (if first_segment s = [] then [VolumeNameMissing n] else [])
                            @ (if \<not> False \<and> first_segment s \<notin> set (map fst cpVolumes)
                               then [BindMountNotAllowed n (first_segment s)] else [])
                   | _ \<Rightarrow> []) vs), None)"
    by (rule volumes_loop_strings [OF assms(3,4)])
  also have "(\<lambda>v. case v of
                     JStr s \<Rightarrow>
                       if s = [] then []
                       else (if first_segment s = [] then [VolumeNameMissing n] else [])
                            @ (if \<not> False \<and> first_segment s \<notin> set (map fst cpVolumes)
                               then [BindMountNotAllowed n (first_segment s)] else [])
                   | _ \<Rightarrow> [])
       = (\<lambda>v. case v of
                     JStr s \<Rightarrow>
                       if s = [] then []
                       else (if first_segment s = [] then [VolumeNameMissing n] else [])
                            @ (if first_segment s \<notin> set (map fst cpVolumes)
                               then [BindMountNotAllowed n (first_segment s)] else [])
                   | _ \<Rightarrow> [])"
    by (intro ext) (simp split: jsval.splits)
  finally show ?thesis .
qed

theorem volume_name_checks_independent_witness:
  "validateComposeAndComposeServicesVolumes
     \<lparr>version = ''3.8'', networks = None, volumes = Some [(''data'', JObj [])],
      services = [(''web'', [(''volumes'',
         JArr [JStr ''data:/data'', JNull, JStr '':/x'', JStr ''/etc:/host:ro''])])]\<rparr>
     False ''web''
   = ([VolumeNameMissing ''web'', BindMountNotAllowed ''web'' [],
       BindMountNotAllowed ''web'' ''/etc''], None)"
  using volume_name_checks_independent [of
      "\<lparr>version = ''3.8'', networks = None, volumes = Some [(''data'', JObj [])],
      services = [(''web'', [(''volumes'',
         JArr [JStr ''data:/data'', JNull, JStr '':/x'', JStr ''/etc:/host:ro''])])]\<rparr>"
      "''web''"
      "[(''volumes'', JArr [JStr ''data:/data'', JNull, JStr '':/x'', JStr ''/etc:/host:ro''])]"
      "[JStr ''data:/data'', JNull, JStr '':/x'', JStr ''/etc:/host:ro'']"
      "[(''data'', JObj [])]"]
  by (simp add: obj_prop_def first_segment_takeWhile)

section \<open>The top-level network rule\<close>

lemma some_js_total: "some_js (\<lambda>x. Inr (P x)) xs = Inr (list_ex P xs)"
  by (induction xs) auto

lemma get_prop_defined:
  "v \<noteq> JNull \<Longrightarrow> v \<noteq> JUndefined \<Longrightarrow> \<exists>x. get_prop v k = Inr x"
  by (cases v) auto

lemma some_js_external:
  assumes "\<forall>v \<in> set vs. v \<noteq> JNull \<and> v \<noteq> JUndefined"
  shows "some_js (\<lambda>network. case get_prop network ''external'' of
                      Inl e \<Rightarrow> Inl e | Inr x \<Rightarrow> Inr (x = JBool False)) vs
         = Inr (list_ex (\<lambda>v. get_prop v ''external'' = Inr (JBool False)) vs)"
  using assms
proof (induction vs)
  case Nil
  then show ?case by simp
next
  case (Cons v vs)
  then obtain x where "get_prop v ''external'' = Inr x"
    using get_prop_defined [of v] by auto
  with Cons show ?case by auto
qed

text \<open>
  When every declared network has a definition, the two checks are independent: each adds
  its violation or nothing, the second whatever the first did.
\<close>

lemma validateComposeNetworks_defined:
  assumes "networks c = Some nets"
    and "\<forall>v \<in> set (map snd nets). v \<noteq> JNull \<and> v \<noteq> JUndefined"
  shows "validateComposeNetworks p c =
     ((if list_ex (\<lambda>k. k \<notin> set (DOCKER_WHITELIST_NETWORKS p)) (map fst nets)
       then [NetworkNotWhitelisted] else [])
      @ (if list_ex (\<lambda>v. get_prop v ''external'' = Inr (JBool False)) (map snd nets)
         then [NetworkNotExternal] else []), None)"
  using assms(1) some_js_external [OF assms(2)]
  by (simp add: validateComposeNetworks_def some_js_total)





section \<open>Evaluation of the model on concrete inputs\<close>

lemmas semver_eval =
  semver_lt_def parse_semver_def match_full_def trim_def is_space_def break_at_def
  numeric_identifier_def is_digit_def num_val_def digit_val_def MAX_SAFE_INTEGER_def
  compare_semver_def compareMain_def comparePre_def compare_nat_def

lemmas rules_eval =
  validateDappnodeCompose_def all_rules_def service_rules_def validateComposeVersion_def
  validateComposeNetworks_def validateComposeServicesKeys_def
  validateComposeServicesValues_def validateComposeServicesNetworks_def
  validateComposeAndComposeServicesVolumes_def dns_differs_def pid_unsafe_def
  is_privileged_def is_network_mode_host_def obj_prop_def sample_params_def
  fresh_aggregate_def appended_def error_toString_def

section \<open>Which rule emits which violation\<close>

lemma notin_then_run:
  "x \<notin> set (fst a) \<Longrightarrow> x \<notin> set (fst b) \<Longrightarrow> x \<notin> set (fst (then_run a b))"
  by (cases a) (auto simp: then_run_def split: option.splits)

lemma notin_push_if: "x \<noteq> v \<Longrightarrow> x \<notin> set (fst (push_if c v))"
  by (auto simp: push_if_def split: sum.splits)

lemma notin_networks_loop:
  "x \<noteq> ServiceNetworkNotWhitelisted n \<Longrightarrow> x \<noteq> ReservedAliasUsed n \<Longrightarrow>
   x \<notin> set (fst (networks_loop p isCore n ns))"
proof (induction ns)
  case Nil
  then show ?case by simp
next
  case (Cons a ns)
  then show ?case
    by (simp del: then_run_None then_run_Some push_if_Inr push_if_Inl)
       (intro conjI impI notin_then_run notin_push_if; simp)
qed

lemma notin_volumes_loop:
  "x \<noteq> VolumeMissingTopLevelDefinition n \<Longrightarrow> x \<noteq> VolumeNameMissing n \<Longrightarrow>
   (\<forall>v. x \<noteq> BindMountNotAllowed n v) \<Longrightarrow>
   x \<notin> set (fst (volumes_loop c isCore n vs))"
proof (induction vs)
  case Nil
  then show ?case by simp
next
  case (Cons a vs)
  then show ?case
    by (auto split: option.splits jsval.splits)
qed

lemma notin_service_rules:
  assumes "x = NetworkNotWhitelisted \<or> x = NetworkNotExternal"
  shows "x \<notin> set (fst (service_rules p c isCore n))"
proof -
  have k: "x \<notin> set (fst (validateComposeServicesKeys p c n))"
    using assms
    by (auto simp: validateComposeServicesKeys_def push_if_def split: option.splits sum.splits)
  have v: "x \<notin> set (fst (validateComposeServicesValues p c isCore n))"
  proof (cases "map_of (services c) n")
    case None
    then show ?thesis by (simp add: validateComposeServicesValues_def)
  next
    case (Some cpService)
    show ?thesis
      unfolding validateComposeServicesValues_def Some option.case Let_def
      using assms by (intro notin_then_run notin_push_if) auto
  qed
  have nl: "x \<notin> set (fst (networks_loop p isCore n ns))" for ns
    using assms by (intro notin_networks_loop) auto
  have nw: "x \<notin> set (fst (validateComposeServicesNetworks p c isCore n))"
    using nl
    by (auto simp: validateComposeServicesNetworks_def Let_def split: option.splits sum.splits)
  have vl: "x \<notin> set (fst (volumes_loop c isCore n vs))" for vs
    using assms by (intro notin_volumes_loop) auto
  have vo: "x \<notin> set (fst (validateComposeAndComposeServicesVolumes c isCore n))"
    using vl
    by (auto simp: validateComposeAndComposeServicesVolumes_def Let_def
        split: option.splits sum.splits)
  show ?thesis
    unfolding service_rules_def by (intro notin_then_run k v nw vo)
qed

lemma notin_services_loop:
  assumes "x = NetworkNotWhitelisted \<or> x = NetworkNotExternal"
  shows "x \<notin> set (fst (services_loop p c isCore ns))"
proof (induction ns)
  case Nil
  then show ?case by simp
next
  case (Cons a ns)
  show ?case
    unfolding services_loop.simps
    by (intro notin_then_run notin_service_rules [OF assms] Cons.IH)
qed

lemma count_then_run:
  "count_list (fst (then_run a b)) x \<le> count_list (fst a) x + count_list (fst b) x"
  by (cases a) (auto simp: then_run_def split: option.splits)

lemma count_push_if: "count_list (fst (push_if c v)) x \<le> 1"
  by (auto simp: push_if_def split: sum.splits)

lemma count_validateComposeNetworks:
  "count_list (fst (validateComposeNetworks p c)) NetworkNotWhitelisted \<le> 1
   \<and> count_list (fst (validateComposeNetworks p c)) NetworkNotExternal \<le> 1"
proof (cases "networks c")
  case None
  then show ?thesis by (simp add: validateComposeNetworks_def)
next
  case (Some nets)
  have a: "count_list (fst (push_if q NetworkNotExternal)) NetworkNotWhitelisted = 0" for q
    by (intro count_notin notin_push_if) simp
  have b: "count_list (fst (push_if q NetworkNotWhitelisted)) NetworkNotExternal = 0" for q
    by (intro count_notin notin_push_if) simp
  show ?thesis
    unfolding validateComposeNetworks_def Some option.case
    using count_then_run [of "push_if q1 NetworkNotWhitelisted" "push_if q2 NetworkNotExternal" for q1 q2]
          count_push_if a b
    by (metis (no_types, lifting) add.right_neutral add_0 le_trans)
qed

lemma errors_after_validation:
  "errors (snd (validateDappnodeCompose p g c m agg)) = fst (all_rules p c (g m))"
  by (simp add: validateDappnodeCompose_def Let_def split: prod.splits option.splits)

lemma count_all_rules:
  assumes "x = NetworkNotWhitelisted \<or> x = NetworkNotExternal"
  shows "count_list (fst (all_rules p c isCore)) x \<le> 1"
proof -
  have v: "count_list (fst (validateComposeVersion p c)) x = 0"
    unfolding validateComposeVersion_def using assms
    by (intro count_notin notin_push_if) auto
  have s: "count_list (fst (services_loop p c isCore (map fst (services c)))) x = 0"
    by (intro count_notin notin_services_loop assms)
  have n: "count_list (fst (validateComposeNetworks p c)) x \<le> 1"
    using assms count_validateComposeNetworks [of p c] by auto
  have "count_list (fst (then_run (validateComposeNetworks p c)
            (services_loop p c isCore (map fst (services c))))) x \<le> 1"
    using count_then_run [of "validateComposeNetworks p c"
        "services_loop p c isCore (map fst (services c))" x] n s by simp
  then show ?thesis
    unfolding all_rules_def
    using count_then_run [of "validateComposeVersion p c"
        "then_run (validateComposeNetworks p c)
            (services_loop p c isCore (map fst (services c)))" x] v by simp
qed

text \<open>
  C9. Whatever the compose, the violations collected by one validation run hold at most
  one \<open>NetworkNotWhitelisted\<close> and at most one \<open>NetworkNotExternal\<close>, however many of
  the declared networks are outside the whitelist or explicitly not external.
\<close>

theorem top_level_network_violations_at_most_once:
  "count_list (errors (snd (validateDappnodeCompose p getIsCore c m agg))) NetworkNotWhitelisted \<le> 1
   \<and> count_list (errors (snd (validateDappnodeCompose p getIsCore c m agg))) NetworkNotExternal \<le> 1"
  using count_all_rules [of NetworkNotWhitelisted p c "getIsCore m"]
    count_all_rules [of NetworkNotExternal p c "getIsCore m"]
  by (simp add: errors_after_validation)

theorem top_level_network_violations_at_most_once_witness:
  "errors (snd (validateDappnodeCompose sample_params (\<lambda>m. m)
     \<lparr>version = ''3.8'',
      networks = Some [(''a'', JObj [(''external'', JBool False)]),
                       (''b'', JObj [(''external'', JBool False)])],
      volumes = None, services = []\<rparr> False fresh_aggregate))
     = [NetworkNotWhitelisted, NetworkNotExternal]
   \<and> count_list (errors (snd (validateDappnodeCompose sample_params (\<lambda>m. m)
     \<lparr>version = ''3.8'',
      networks = Some [(''a'', JObj [(''external'', JBool False)]),
                       (''b'', JObj [(''external'', JBool False)])],
      volumes = None, services = []\<rparr> False fresh_aggregate))) NetworkNotWhitelisted \<le> 1
   \<and> count_list (errors (snd (validateDappnodeCompose sample_params (\<lambda>m. m)
     \<lparr>version = ''3.8'',
      networks = Some [(''a'', JObj [(''external'', JBool False)]),
                       (''b'', JObj [(''external'', JBool False)])],
      volumes = None, services = []\<rparr> False fresh_aggregate))) NetworkNotExternal \<le> 1"
  using top_level_network_violations_at_most_once [of sample_params "\<lambda>m. m"
      "\<lparr>version = ''3.8'',
        networks = Some [(''a'', JObj [(''external'', JBool False)]),
                         (''b'', JObj [(''external'', JBool False)])],
        volumes = None, services = []\<rparr>" False fresh_aggregate]
  by (simp add: rules_eval semver_eval)

section \<open>The orchestrator: repeated runs and the aggregate rejection\<close>






lemma then_run_empty [simp]: "then_run a ([], None) = a"
  by (cases a) (auto simp: then_run_def split: option.splits)







section \<open>The schema-version rule\<close>

lemma of_char_digit_char: "n < 10 \<Longrightarrow> (of_char (digit_char n) :: nat) = 48 + n"
  by (simp add: digit_char_def)

lemma is_digit_digit_char: "n < 10 \<Longrightarrow> is_digit (digit_char n)"
  by (simp add: is_digit_def of_char_digit_char)

lemma digit_val_digit_char: "n < 10 \<Longrightarrow> digit_val (digit_char n) = n"
  by (simp add: digit_val_def of_char_digit_char)

lemma dec_digit: "n < 10 \<Longrightarrow> dec n = [digit_char n]"
  by (subst dec.simps) simp

lemma dec_step: "\<not> n < 10 \<Longrightarrow> dec n = dec (n div 10) @ [digit_char (n mod 10)]"
  by (subst dec.simps) simp

lemma dec_not_Nil: "dec n \<noteq> []"
  by (subst dec.simps) simp

lemma dec_all_digits: "list_all is_digit (dec n)"
proof (induction n rule: dec.induct)
  case (1 n)
  show ?case
  proof (cases "n < 10")
    case True
    then show ?thesis by (simp add: dec_digit is_digit_digit_char)
  next
    case False
    with 1 show ?thesis by (simp add: dec_step is_digit_digit_char)
  qed
qed

lemma num_val_snoc: "num_val (xs @ [c]) = 10 * num_val xs + digit_val c"
  by (simp add: num_val_def)

lemma num_val_dec: "num_val (dec n) = n"
proof (induction n rule: dec.induct)
  case (1 n)
  show ?case
  proof (cases "n < 10")
    case True
    then show ?thesis by (simp add: dec_digit num_val_def digit_val_digit_char)
  next
    case False
    with 1 show ?thesis by (simp add: dec_step num_val_snoc digit_val_digit_char)
  qed
qed

lemma hd_dec_zero: "hd (dec n) = CHR ''0'' \<Longrightarrow> n = 0"
proof (induction n rule: dec.induct)
  case (1 n)
  show ?case
  proof (cases "n < 10")
    case True
    with 1(2) have "(of_char (digit_char n) :: nat) = of_char CHR ''0''"
      by (simp add: dec_digit)
    with True show ?thesis by (simp add: of_char_digit_char)
  next
    case False
    with 1(2) have "hd (dec (n div 10)) = CHR ''0''"
      by (simp add: dec_step dec_not_Nil)
    with 1(1) False have "n div 10 = 0" by simp
    with False show ?thesis by simp
  qed
qed

lemma digit_char_numerals:
  "digit_char 0 = CHR ''0''" "digit_char 1 = CHR ''1''" "digit_char 2 = CHR ''2''"
  "digit_char 3 = CHR ''3''" "digit_char 4 = CHR ''4''" "digit_char 5 = CHR ''5''"
  "digit_char 6 = CHR ''6''" "digit_char 7 = CHR ''7''" "digit_char 8 = CHR ''8''"
  "digit_char 9 = CHR ''9''"
  by (simp_all add: digit_char_def char_of_def bit_0)

lemma dec_zero: "dec 0 = ''0''"
  by (simp add: dec_digit digit_char_numerals)

lemma numeric_identifier_dec: "numeric_identifier (dec n)"
  unfolding numeric_identifier_def
  using hd_dec_zero [of n] dec_zero by (auto simp: dec_not_Nil dec_all_digits)

lemma length_dec: "0 < k \<Longrightarrow> n < 10 ^ k \<Longrightarrow> length (dec n) \<le> k"
proof (induction n arbitrary: k rule: dec.induct)
  case (1 n)
  show ?case
  proof (cases "n < 10")
    case True
    with 1(2) show ?thesis by (simp add: dec_digit)
  next
    case False
    then have "k \<noteq> 1" using 1(3) by auto
    with 1(2) obtain j where k: "k = Suc j" and j: "0 < j" by (cases k) auto
    from 1(3) k have "n div 10 < 10 ^ j"
      by (simp add: less_mult_imp_div_less mult.commute)
    with 1(1) [OF False j] have "length (dec (n div 10)) \<le> j" by simp
    with False k show ?thesis by (simp add: dec_step)
  qed
qed


lemma digit_not_special:
  "is_digit c \<Longrightarrow>
   c \<noteq> CHR ''v'' \<and> c \<noteq> CHR ''.'' \<and> c \<noteq> CHR ''+'' \<and> c \<noteq> CHR ''-'' \<and> \<not> is_space c"
  by (auto simp: is_digit_def is_space_def)

lemma split_on_notin: "d \<notin> set xs \<Longrightarrow> split_on d xs = [xs]"
  by (induction xs) auto

lemma split_on_append:
  "d \<notin> set xs \<Longrightarrow> split_on d (xs @ d # ys) = xs # split_on d ys"
  by (induction xs) auto

lemma break_at_notin: "d \<notin> set s \<Longrightarrow> break_at d s = (s, None)"
  unfolding break_at_def by (induction s) auto

lemma trim_id:
  assumes "s \<noteq> []" and "\<not> is_space (hd s)" and "\<not> is_space (last s)"
  shows "trim s = s"
proof -
  from assms have "dropWhile is_space s = s" by (cases s) auto
  moreover from assms have "dropWhile is_space (rev s) = rev s"
    by (cases "rev s") (auto simp: hd_rev [symmetric])
  ultimately show ?thesis by (simp add: trim_def)
qed

lemma dec_set: "c \<in> set (dec n) \<Longrightarrow> is_digit c"
  using dec_all_digits [of n] by (simp add: list_all_iff)

lemma parse_semver_major_minor:
  assumes M: "M \<le> MAX_SAFE_INTEGER" and N: "N \<le> MAX_SAFE_INTEGER"
  shows "parse_semver ((dec M @ ''.'' @ dec N) @ ''.0'')
         = Inr \<lparr>major = M, minor = N, patch = 0, prerelease = []\<rparr>"
proof -
  let ?s = "dec M @ CHR ''.'' # dec N @ ''.0''"
  have z: "is_digit CHR ''0''" by (simp add: is_digit_def)
  obtain x xs where dM: "dec M = x # xs" using dec_not_Nil [of M] by (cases "dec M") auto
  then have x: "is_digit x" using dec_set [of x M] by simp
  have bound: "MAX_SAFE_INTEGER < 10 ^ 16" by (simp add: MAX_SAFE_INTEGER_def)
  have "length (dec M) \<le> 16" "length (dec N) \<le> 16"
    using M N bound by (auto intro!: length_dec)
  then have len: "\<not> 256 < length ?s" by simp
  have "hd ?s = x" "last ?s = CHR ''0''" using dM by simp_all
  then have trim: "trim ?s = ?s"
    using digit_not_special [OF x] digit_not_special [OF z] by (intro trim_id) simp_all
  have strip: "(case ?s of [] \<Rightarrow> ?s | c # cs \<Rightarrow> if c = CHR ''v'' then cs else ?s) = ?s"
    using dM digit_not_special [OF x] by simp
  have plus: "CHR ''+'' \<notin> set ?s" and minus: "CHR ''-'' \<notin> set ?s"
    using digit_not_special dec_set by auto
  have dotM: "CHR ''.'' \<notin> set (dec M)" and dotN: "CHR ''.'' \<notin> set (dec N)"
    using digit_not_special dec_set by auto
  have split: "split_on CHR ''.'' ?s = [dec M, dec N, ''0'']"
    using split_on_append [OF dotM, of "dec N @ ''.0''"]
      split_on_append [OF dotN, of "''0''"] by simp
  have nz: "numeric_identifier ''0''" by (simp add: numeric_identifier_def z)
  have match: "match_full ?s = Some (dec M, dec N, ''0'', [])"
    unfolding match_full_def strip
    by (simp add: break_at_notin [OF plus] break_at_notin [OF minus] split
        numeric_identifier_dec nz)
  have "num_val ''0'' = 0" by (simp add: num_val_def digit_val_def)
  with M N len show ?thesis
    by (simp add: parse_semver_def trim match num_val_dec)
qed

lemma semver_lt_major_minor:
  assumes "M \<le> MAX_SAFE_INTEGER" and "N \<le> MAX_SAFE_INTEGER"
    and "a \<le> MAX_SAFE_INTEGER" and "b \<le> MAX_SAFE_INTEGER"
  shows "semver_lt ((dec M @ ''.'' @ dec N) @ ''.0'') ((dec a @ ''.'' @ dec b) @ ''.0'')
         = Inr (M < a \<or> (M = a \<and> N < b))"
  unfolding semver_lt_def
    parse_semver_major_minor [OF assms(1,2)] parse_semver_major_minor [OF assms(3,4)]
  by (auto simp: compare_semver_def compareMain_def comparePre_def compare_nat_def)

lemma dec_numerals: "dec 0 = ''0''" "dec 3 = ''3''" "dec 4 = ''4''" "dec 8 = ''8''"
  by (simp_all add: dec_digit digit_char_numerals)

text \<open>
  C2, as stated, fails: the rule appends \<open>.0\<close> whether or not the declared version has a
  patch component, so \<open>3.4.0\<close> is handed to semver as \<open>3.4.0.0\<close> and the comparison throws
  instead of finding it equal to \<open>3.4\<close>; likewise \<open>3.3.0\<close>, which is below the minimum, gets
  no \<open>VersionTooLow\<close>.
\<close>

theorem version_with_patch_counterexample:
  "validateComposeVersion sample_params
     \<lparr>version = ''3.4.0'', networks = None, volumes = None, services = []\<rparr>
   = ([], Some (InvalidVersion ''3.4.0.0''))
   \<and> validateComposeVersion sample_params
     \<lparr>version = ''3.4'', networks = None, volumes = None, services = []\<rparr> = ([], None)
   \<and> validateComposeVersion sample_params
     \<lparr>version = ''3.3.0'', networks = None, volumes = None, services = []\<rparr>
   = ([], Some (InvalidVersion ''3.3.0.0''))"
  by (simp add: validateComposeVersion_def sample_params_def semver_eval)

lemma parse_semver_with_patch:
  assumes M: "M \<le> MAX_SAFE_INTEGER" and N: "N \<le> MAX_SAFE_INTEGER"
    and P: "P \<le> MAX_SAFE_INTEGER"
  shows "parse_semver ((dec M @ ''.'' @ dec N @ ''.'' @ dec P) @ ''.0'')
         = Inl (InvalidVersion ((dec M @ ''.'' @ dec N @ ''.'' @ dec P) @ ''.0''))"
proof -
  let ?s = "dec M @ CHR ''.'' # dec N @ CHR ''.'' # dec P @ ''.0''"
  have z: "is_digit CHR ''0''" by (simp add: is_digit_def)
  obtain x xs where dM: "dec M = x # xs" using dec_not_Nil [of M] by (cases "dec M") auto
  then have x: "is_digit x" using dec_set [of x M] by simp
  have bound: "MAX_SAFE_INTEGER < 10 ^ 16" by (simp add: MAX_SAFE_INTEGER_def)
  have "length (dec M) \<le> 16" "length (dec N) \<le> 16" "length (dec P) \<le> 16"
    using M N P bound by (auto intro!: length_dec)
  then have len: "\<not> 256 < length ?s" by simp
  have "hd ?s = x" "last ?s = CHR ''0''" using dM by simp_all
  then have trim: "trim ?s = ?s"
    using digit_not_special [OF x] digit_not_special [OF z] by (intro trim_id) simp_all
  have strip: "(case ?s of [] \<Rightarrow> ?s | c # cs \<Rightarrow> if c = CHR ''v'' then cs else ?s) = ?s"
    using dM digit_not_special [OF x] by simp
  have plus: "CHR ''+'' \<notin> set ?s" and minus: "CHR ''-'' \<notin> set ?s"
    using digit_not_special dec_set by auto
  have dotM: "CHR ''.'' \<notin> set (dec M)" and dotN: "CHR ''.'' \<notin> set (dec N)"
    and dotP: "CHR ''.'' \<notin> set (dec P)"
    using digit_not_special dec_set by auto
  have split: "split_on CHR ''.'' ?s = [dec M, dec N, dec P, ''0'']"
    using split_on_append [OF dotM, of "dec N @ CHR ''.'' # dec P @ ''.0''"]
      split_on_append [OF dotN, of "dec P @ ''.0''"]
      split_on_append [OF dotP, of "''0''"] by simp
  have match: "match_full ?s = None"
    unfolding match_full_def strip
    by (simp add: break_at_notin [OF plus] break_at_notin [OF minus] split)
  from len show ?thesis
    by (simp add: parse_semver_def trim match)
qed

text \<open>
  C2, amended. The rule appends \<open>.0\<close> to the declared version and to the minimum, always,
  and compares the two in semantic-version order. For a declared version and a minimum of
  the form major.minor (decimal numerals without leading zeros, up to 2^53 - 1) it emits
  exactly one \<open>VersionTooLow\<close> when the declared version is strictly below the minimum, and
  nothing otherwise. A declared version of the form major.minor.patch (three such numerals)
  is not brought to the form of the minimum: with \<open>.0\<close> appended it is no semantic version,
  and the rule throws \<open>Invalid Version\<close> and emits nothing.
\<close>

theorem version_rule_major_minor:
  "(version c = dec M @ ''.'' @ dec N
      \<and> MINIMUM_COMPOSE_FILE_VERSION p = dec a @ ''.'' @ dec b
      \<and> M \<le> MAX_SAFE_INTEGER \<and> N \<le> MAX_SAFE_INTEGER
      \<and> a \<le> MAX_SAFE_INTEGER \<and> b \<le> MAX_SAFE_INTEGER
    \<longrightarrow> validateComposeVersion p c =
          (if M < a \<or> (M = a \<and> N < b) then [VersionTooLow (version c)] else [], None))
   \<and> (version c = dec M @ ''.'' @ dec N @ ''.'' @ dec P
      \<and> M \<le> MAX_SAFE_INTEGER \<and> N \<le> MAX_SAFE_INTEGER \<and> P \<le> MAX_SAFE_INTEGER
    \<longrightarrow> validateComposeVersion p c = ([], Some (InvalidVersion (version c @ ''.0''))))"
proof (intro conjI impI)
  assume a: "version c = dec M @ ''.'' @ dec N
      \<and> MINIMUM_COMPOSE_FILE_VERSION p = dec a @ ''.'' @ dec b
      \<and> M \<le> MAX_SAFE_INTEGER \<and> N \<le> MAX_SAFE_INTEGER
      \<and> a \<le> MAX_SAFE_INTEGER \<and> b \<le> MAX_SAFE_INTEGER"
  then have "semver_lt (version c @ ''.0'') (MINIMUM_COMPOSE_FILE_VERSION p @ ''.0'')
             = Inr (M < a \<or> (M = a \<and> N < b))"
    using semver_lt_major_minor [of M N a b] by simp
  then show "validateComposeVersion p c =
          (if M < a \<or> (M = a \<and> N < b) then [VersionTooLow (version c)] else [], None)"
    by (simp add: validateComposeVersion_def)
next
  assume a: "version c = dec M @ ''.'' @ dec N @ ''.'' @ dec P
      \<and> M \<le> MAX_SAFE_INTEGER \<and> N \<le> MAX_SAFE_INTEGER \<and> P \<le> MAX_SAFE_INTEGER"
  then have "parse_semver (version c @ ''.0'') = Inl (InvalidVersion (version c @ ''.0''))"
    using parse_semver_with_patch [of M N P] by simp
  then show "validateComposeVersion p c = ([], Some (InvalidVersion (version c @ ''.0'')))"
    by (simp add: validateComposeVersion_def semver_lt_def)
qed

theorem version_rule_major_minor_witness:
  "validateComposeVersion sample_params
     \<lparr>version = ''3.0'', networks = None, volumes = None, services = []\<rparr>
   = ([VersionTooLow ''3.0''], None)
   \<and> validateComposeVersion sample_params
     \<lparr>version = ''3.4'', networks = None, volumes = None, services = []\<rparr> = ([], None)
   \<and> validateComposeVersion sample_params
     \<lparr>version = ''3.8'', networks = None, volumes = None, services = []\<rparr> = ([], None)
   \<and> validateComposeVersion sample_params
     \<lparr>version = ''3.8.4'', networks = None, volumes = None, services = []\<rparr>
     = ([], Some (InvalidVersion ''3.8.4.0''))"
  using version_rule_major_minor [of
      "\<lparr>version = ''3.0'', networks = None, volumes = None, services = []\<rparr>" 3 0
      sample_params 3 4 0]
    version_rule_major_minor [of
      "\<lparr>version = ''3.4'', networks = None, volumes = None, services = []\<rparr>" 3 4
      sample_params 3 4 0]
    version_rule_major_minor [of
      "\<lparr>version = ''3.8'', networks = None, volumes = None, services = []\<rparr>" 3 8
      sample_params 3 4 0]
    version_rule_major_minor [of
      "\<lparr>version = ''3.8.4'', networks = None, volumes = None, services = []\<rparr>" 3 8
      sample_params 3 4 4]
  by (simp add: sample_params_def dec_numerals MAX_SAFE_INTEGER_def)

section \<open>The per-service value rule\<close>

lemma some_js_never:
  "(\<And>x. x \<in> set xs \<Longrightarrow> f x = Inr False) \<Longrightarrow> some_js f xs = Inr False"
  by (induction xs) auto

text \<open>
  The value rule looks for \<open>dns\<close>, \<open>pid\<close>, \<open>privileged\<close> and \<open>network_mode\<close> inside the
  values of the service's properties. On a service whose property values are booleans,
  numbers, strings or arrays it therefore finds nothing, whatever the service sets.
\<close>

lemma value_rule_silent_on_flat_service:
  assumes "map_of (services c) n = Some cpService"
    and "\<And>v. v \<in> set (map snd cpService) \<Longrightarrow>
           (\<exists>b. v = JBool b) \<or> (\<exists>i. v = JNum i) \<or> (\<exists>s. v = JStr s) \<or> (\<exists>xs. v = JArr xs)"
  shows "validateComposeServicesValues p c isCore n = ([], None)"
proof -
  have u: "get_prop v k = Inr JUndefined" if "v \<in> set (map snd cpService)" for v k
    using assms(2) [OF that] by auto
  have "some_js (dns_differs p) (map snd cpService) = Inr False"
    by (intro some_js_never) (simp add: dns_differs_def u)
  moreover have "some_js pid_unsafe (map snd cpService) = Inr False"
    by (intro some_js_never) (simp add: pid_unsafe_def u)
  moreover have "some_js is_privileged (map snd cpService) = Inr False"
    by (intro some_js_never) (simp add: is_privileged_def u)
  moreover have "some_js is_network_mode_host (map snd cpService) = Inr False"
    by (intro some_js_never) (simp add: is_network_mode_host_def u)
  ultimately show ?thesis
    using assms(1) by (simp add: validateComposeServicesValues_def Let_def)
qed

text \<open>
  C1. At the input \<open>{image: "nginx", privileged: true}\<close> of a non-core package the value
  rule emits nothing and the whole validation returns normally: the callbacks are applied
  to the values of the service's properties (\<open>"nginx"\<close>, \<open>true\<close>), none of which has a
  property \<open>privileged\<close>.
\<close>

theorem privileged_service_accepted:
  "validateComposeServicesValues sample_params
     \<lparr>version = ''3.8'', networks = None, volumes = None,
      services = [(''web'', [(''image'', JStr ''nginx''), (''privileged'', JBool True)])]\<rparr>
     False ''web'' = ([], None)
   \<and> validateDappnodeCompose sample_params (\<lambda>m. m)
     \<lparr>version = ''3.8'', networks = None, volumes = None,
      services = [(''web'', [(''image'', JStr ''nginx''), (''privileged'', JBool True)])]\<rparr>
     False fresh_aggregate = (Returned, fresh_aggregate)"
  by (simp add: rules_eval semver_eval)

text \<open>
  C5. At the input \<open>{image: "nginx", dns: "8.8.8.8"}\<close> the value rule emits no
  \<open>DnsMismatch\<close>, for the same reason; it emits one for a service that sets no \<open>dns\<close> but
  has a property whose value is an object with a \<open>dns\<close> key.
\<close>

theorem dns_mismatch_not_reported:
  "validateComposeServicesValues sample_params
     \<lparr>version = ''3.8'', networks = None, volumes = None,
      services = [(''web'', [(''image'', JStr ''nginx''), (''dns'', JStr ''8.8.8.8'')])]\<rparr>
     False ''web'' = ([], None)
   \<and> validateComposeServicesValues sample_params
     \<lparr>version = ''3.8'', networks = None, volumes = None,
      services = [(''web'', [(''image'', JStr ''nginx''),
                            (''environment'', JObj [(''dns'', JStr ''8.8.8.8'')])])]\<rparr>
     False ''web'' = ([DnsMismatch ''web''], None)"
  by (simp add: rules_eval)

end
